theory Spec2Isabelle
  imports Main
begin

section \<open>The sh61 shell: command lists and their execution\<close>

text \<open>
  A shallow embedding of \<^verbatim>\<open>src/pset5/sh61.c\<close> and \<^verbatim>\<open>src/pset5/sh61.h\<close>.
  The shell reads a line, cuts it into typed tokens, builds a linked list of
  \<^verbatim>\<open>struct command\<close> and runs that list with \<^verbatim>\<open>fork\<close>, \<^verbatim>\<open>execvp\<close> and
  \<^verbatim>\<open>waitpid\<close>.

  The operating system is not part of the program. Every system call the shell makes is
  written to a trace of events, and every value a system call hands back (the return
  value of \<^verbatim>\<open>fork\<close> and \<^verbatim>\<open>chdir\<close>, whether \<^verbatim>\<open>execvp\<close> finds its program)
  is an input of the model. \<^verbatim>\<open>fork\<close> returns once in each of two processes: the model
  follows one process, and the return value says which one (0 in the child).
\<close>

subsection \<open>Token types (sh61.h)\<close>

definition TOKEN_NORMAL :: int where "TOKEN_NORMAL = 0"
definition TOKEN_REDIRECTION :: int where "TOKEN_REDIRECTION = 1"
definition TOKEN_SEQUENCE :: int where "TOKEN_SEQUENCE = 2"
definition TOKEN_BACKGROUND :: int where "TOKEN_BACKGROUND = 3"
definition TOKEN_PIPE :: int where "TOKEN_PIPE = 4"
definition TOKEN_AND :: int where "TOKEN_AND = 5"
definition TOKEN_OR :: int where "TOKEN_OR = 6"
definition TOKEN_LPAREN :: int where "TOKEN_LPAREN = 7"
definition TOKEN_RPAREN :: int where "TOKEN_RPAREN = 8"
definition TOKEN_OTHER :: int where "TOKEN_OTHER = - 1"

text \<open>
  \<^verbatim>\<open>parse_shell_token\<close> is only declared in sh61.h. Each call that does not return
  NULL stores one token: its type and its text, a freshly allocated string. A line is
  therefore taken as the list of the tokens these calls produce, in order; the call that
  returns NULL ends the loop of \<^verbatim>\<open>eval_line\<close> and contributes nothing.
\<close>

type_synonym token = "int \<times> string"

subsection \<open>struct command\<close>

text \<open>
  One cell of the \<^verbatim>\<open>char**\<close> array \<^verbatim>\<open>argv\<close>: a pointer to a string, the NULL
  pointer, or a cell that \<^verbatim>\<open>realloc\<close> has added and nothing has written yet.
  The array itself is a list of cells; the NULL array of \<^verbatim>\<open>command_alloc\<close> is the
  empty list.
\<close>

datatype cell = Str string | Null | Uninit

record command =
  argc :: int
  argv :: "cell list"
  pid :: int
  background :: int

text \<open>
  The field \<^verbatim>\<open>next\<close> links the commands of a line into a singly linked list. The list
  is only ever extended at its end with a fresh node, so it is modelled as a HOL list of
  commands: \<^verbatim>\<open>c->next == NULL\<close> is "the rest of the list is empty".
\<close>

definition command_alloc :: command where
  "command_alloc = \<lparr>argc = 0, argv = [], pid = - 1, background = 0\<rparr>"

definition realloc_cells :: "cell list \<Rightarrow> nat \<Rightarrow> cell list" where
  "realloc_cells xs n = take n xs @ replicate (n - length xs) Uninit"

definition command_append_arg :: "command \<Rightarrow> string \<Rightarrow> command" where
  "command_append_arg c word =
     (let a0 = realloc_cells (argv c) (nat (argc c + 2));
          a1 = a0[nat (argc c) := Str word];
          a2 = a1[nat (argc c + 1) := Null]
      in c\<lparr>argv := a2, argc := argc c + 1\<rparr>)"

subsection \<open>System calls: results and trace\<close>

text \<open>
  Constants of the C library that the code names: \<^verbatim>\<open>EXIT_SUCCESS\<close> and
  \<^verbatim>\<open>EXIT_FAILURE\<close> of \<^verbatim>\<open>stdlib.h\<close>, \<^verbatim>\<open>WNOHANG\<close> of \<^verbatim>\<open>sys/wait.h\<close>, with
  their values on Linux; and the two strings that name the builtins.
\<close>

definition EXIT_SUCCESS :: int where "EXIT_SUCCESS = 0"
definition EXIT_FAILURE :: int where "EXIT_FAILURE = 1"
definition WNOHANG :: int where "WNOHANG = 1"

definition BUILTIN_CD :: string where "BUILTIN_CD = ''cd''"
definition BUILTIN_EXIT :: string where "BUILTIN_EXIT = ''exit''"

datatype signal = SIGTTOU
datatype disposition = SIG_IGN | SIG_DFL

text \<open>
  The events of one process, in program order. \<open>Fork a r\<close>: \<^verbatim>\<open>fork()\<close> was called in
  \<^verbatim>\<open>start_command\<close> for the command whose argument array is \<open>a\<close>, and returned
  \<open>r\<close> in this process. \<open>Waitpid p opts\<close>: \<^verbatim>\<open>waitpid(p, _, opts)\<close>.
  \<open>Perror s\<close> and \<open>Stderr s\<close>: the diagnostics \<^verbatim>\<open>perror(s)\<close> and
  \<^verbatim>\<open>fprintf(stderr, s)\<close>.
\<close>

datatype event =
    Chdir cell int
  | Fork "cell list" int
  | Execvp string "cell list"
  | Waitpid int int
  | SetForeground int
  | HandleSignal signal disposition
  | Perror string
  | Stderr string

text \<open>
  What the operating system answers during one call of \<^verbatim>\<open>start_command\<close>.
  \<^verbatim>\<open>chdir\<close> of the NULL pointer fails whatever the answer is.
\<close>

record sysres =
  fork_ret :: int
  chdir_ret :: int
  exec_ok :: bool

text \<open>
  How a call ends in the process that is followed: it returns a value, the process ends
  in \<^verbatim>\<open>_exit\<close>, the process image is replaced by \<^verbatim>\<open>execvp\<close>, or a NULL or unwritten
  pointer is dereferenced.
\<close>

datatype 'a result = Returns 'a | Exits int | Execs "cell list" | Faults

subsection \<open>start\_command\<close>

text \<open>
  The parameter \<open>pgid\<close> is cast to void and never used. Reading \<^verbatim>\<open>argv[i]\<close>
  outside the array gives an unwritten cell.
\<close>

definition cell_at :: "cell list \<Rightarrow> nat \<Rightarrow> cell" where
  "cell_at xs i = (if i < length xs then xs ! i else Uninit)"

definition start_command ::
  "command \<Rightarrow> int \<Rightarrow> sysres \<Rightarrow> command \<times> event list \<times> int result" where
  "start_command c pgid r =
     (case cell_at (argv c) 0 of
        Str a0 \<Rightarrow>
          if a0 = BUILTIN_CD then
            (case cell_at (argv c) 1 of
               Uninit \<Rightarrow> (c, [], Faults)
             | path \<Rightarrow>
                 (let ret = (if path = Null then - 1 else chdir_ret r) in
                  if ret = - 1
                  then (c, [Chdir path ret, Perror ''failed to change cwd: ''], Returns (- 1))
                  else (c, [Chdir path ret], Returns 0)))
          else if a0 = BUILTIN_EXIT then (c, [], Exits EXIT_SUCCESS)
          else
            (let child_pid = fork_ret r in
             if child_pid = 0 then
               (let c' = c\<lparr>pid := child_pid\<rparr> in
                if exec_ok r
                then (c', [Fork (argv c) child_pid, Execvp a0 (argv c')], Execs (argv c'))
                else (c', [Fork (argv c) child_pid, Execvp a0 (argv c'),
                           Perror ''Execvp failed: ''], Exits EXIT_FAILURE))
             else if child_pid > 0 then (c, [Fork (argv c) child_pid], Returns (pid c))
             else (c, [Fork (argv c) child_pid,
                       Stderr (''Failed to fork, oh dear.'' @ [CHR 0x0A])],
                   Returns (- 1)))
      | _ \<Rightarrow> (c, [], Faults))"

subsection \<open>run\_list\<close>

text \<open>
  One turn of the loop of \<^verbatim>\<open>run_list\<close> on the command \<open>c\<close>: start it, and wait when
  it is not a background command. The status that \<^verbatim>\<open>waitpid\<close> stores and the value it
  returns are never read.
\<close>

definition run_one :: "command \<Rightarrow> sysres \<Rightarrow> event list \<times> unit result" where
  "run_one c r =
     (case start_command c 42 r of
        (c', es, Returns child) \<Rightarrow>
          (if background c' = 0 then es @ [Waitpid child 0] else es, Returns ())
      | (c', es, Exits s) \<Rightarrow> (es, Exits s)
      | (c', es, Execs a) \<Rightarrow> (es, Execs a)
      | (c', es, Faults) \<Rightarrow> (es, Faults))"

text \<open>
  \<open>env i\<close> is what the operating system answers during the \<open>i\<close>-th turn of the loop.
\<close>

fun run_list :: "command list \<Rightarrow> (nat \<Rightarrow> sysres) \<Rightarrow> event list \<times> unit result" where
  "run_list [] env = ([], Faults)"
| "run_list (c # cs) env =
     (if argc c \<noteq> 0 then
        (case run_one c (env 0) of
           (es, Returns u) \<Rightarrow>
             (if cs = [] then (es, Returns ())
              else (case run_list cs (\<lambda>i. env (Suc i)) of (es', r) \<Rightarrow> (es @ es', r)))
         | (es, r) \<Rightarrow> (es, r))
      else ([], Returns ()))"

subsection \<open>eval\_line\<close>

text \<open>
  The loop that builds the command list: \<open>done\<close> are the commands already linked in
  front of \<open>cur\<close>, the command \<^verbatim>\<open>current\<close> points to.
\<close>

fun build_loop :: "token list \<Rightarrow> command list \<Rightarrow> command \<Rightarrow> command list" where
  "build_loop [] done cur = done @ [cur]"
| "build_loop ((ty, tok) # rest) done cur =
     (let cur1 = (if ty = TOKEN_NORMAL then command_append_arg cur tok else cur);
          cur2 = (if ty = TOKEN_BACKGROUND then cur1\<lparr>background := 1\<rparr> else cur1)
      in if ty = TOKEN_SEQUENCE \<or> ty = TOKEN_BACKGROUND
         then build_loop rest (done @ [cur2]) command_alloc
         else build_loop rest done cur2)"

definition build_commands :: "token list \<Rightarrow> command list" where
  "build_commands toks = build_loop toks [] command_alloc"

text \<open>
  The loop also calls \<^verbatim>\<open>waitpid(-1, 0, WNOHANG)\<close> once for every token. The list that
  it builds always holds the first command \<^verbatim>\<open>c1\<close>, so the case of the empty list in
  \<open>eval_line\<close> is never taken; \<^verbatim>\<open>command_free\<close> only releases memory and is left out.
\<close>

definition reaps :: "token list \<Rightarrow> event list" where
  "reaps toks = map (\<lambda>t. Waitpid (- 1) WNOHANG) toks"

definition eval_line :: "token list \<Rightarrow> (nat \<Rightarrow> sysres) \<Rightarrow> event list \<times> unit result" where
  "eval_line toks env =
     (case build_commands toks of
        [] \<Rightarrow> (reaps toks, Faults)
      | c1 # cs \<Rightarrow>
          if argc c1 \<noteq> 0
          then (case run_list (c1 # cs) env of (es, r) \<Rightarrow> (reaps toks @ es, r))
          else (reaps toks, Returns ()))"

subsection \<open>main\<close>

text \<open>
  The read loop of \<^verbatim>\<open>main\<close>, for an input that arrives as complete lines: each line is
  handed to \<^verbatim>\<open>eval_line\<close> and followed by one \<^verbatim>\<open>waitpid(-1, 0, WNOHANG)\<close>. Reading
  the file and printing the prompt are left out. \<open>envs k\<close> is the environment of the
  \<open>k\<close>-th line.
\<close>

fun main_loop :: "token list list \<Rightarrow> (nat \<Rightarrow> nat \<Rightarrow> sysres) \<Rightarrow> event list \<times> int result" where
  "main_loop [] envs = ([], Returns 0)"
| "main_loop (l # ls) envs =
     (case eval_line l (envs 0) of
        (es, Returns u) \<Rightarrow>
          (case main_loop ls (\<lambda>k. envs (Suc k)) of
             (es', r) \<Rightarrow> (es @ [Waitpid (- 1) WNOHANG] @ es', r))
      | (es, Exits s) \<Rightarrow> (es, Exits s)
      | (es, Execs a) \<Rightarrow> (es, Execs a)
      | (es, Faults) \<Rightarrow> (es, Faults))"

definition main :: "token list list \<Rightarrow> (nat \<Rightarrow> nat \<Rightarrow> sysres) \<Rightarrow> event list \<times> int result" where
  "main lines envs =
     (case main_loop lines envs of
        (es, r) \<Rightarrow> ([SetForeground 0, HandleSignal SIGTTOU SIG_IGN] @ es, r))"

subsection \<open>Lines and commands used to state the properties\<close>

text \<open>
  The tokens of a run of plain words, the argument array that \<^verbatim>\<open>command_append_arg\<close>
  builds from such a run, and the command that holds it.
\<close>

definition word_tokens :: "string list \<Rightarrow> token list" where
  "word_tokens ws = map (\<lambda>w. (TOKEN_NORMAL, w)) ws"

definition argv_of :: "string list \<Rightarrow> cell list" where
  "argv_of ws = (if ws = [] then [] else map Str ws @ [Null])"

definition simple_command :: "string list \<Rightarrow> command" where
  "simple_command ws = \<lparr>argc = int (length ws), argv = argv_of ws, pid = - 1, background = 0\<rparr>"

text \<open>
  The invariant of the builder: the command holds the array of some run of words, counts
  them in \<open>argc\<close>, and has no process.
\<close>

definition built :: "command \<Rightarrow> bool" where
  "built c = (\<exists>ws. argc c = int (length ws) \<and> argv c = argv_of ws \<and> pid c = - 1)"

text \<open>
  A line of commands made of plain words and joined by \<^verbatim>\<open>;\<close>.
\<close>

fun seq_line :: "string list list \<Rightarrow> token list" where
  "seq_line [] = []"
| "seq_line [ws] = word_tokens ws"
| "seq_line (ws # v # wss) = word_tokens ws @ (TOKEN_SEQUENCE, '';'') # seq_line (v # wss)"

text \<open>
  The argument arrays of the commands for which \<^verbatim>\<open>fork\<close> was called, in order.
\<close>

definition forked :: "event list \<Rightarrow> cell list list" where
  "forked es = [a. Fork a r \<leftarrow> es]"

text \<open>
  Two environments. In \<open>parent_env\<close> the shell process is followed: every \<^verbatim>\<open>fork\<close>
  succeeds and returns a fresh child process ID, every \<^verbatim>\<open>chdir\<close> succeeds. In
  \<open>child_env\<close> the child of the first \<^verbatim>\<open>fork\<close> is followed, and its \<^verbatim>\<open>execvp\<close>
  finds the program.
\<close>

definition parent_env :: "nat \<Rightarrow> sysres" where
  "parent_env i = \<lparr>fork_ret = 1000 + int i, chdir_ret = 0, exec_ok = True\<rparr>"

definition child_env :: "nat \<Rightarrow> sysres" where
  "child_env i = \<lparr>fork_ret = 0, chdir_ret = 0, exec_ok = True\<rparr>"

text \<open>
  The exit status of a child process that leaves \<^verbatim>\<open>start_command\<close> with the result
  \<open>res\<close>: the argument of \<^verbatim>\<open>_exit\<close> when the child ends there, and the status
  \<open>prog\<close> with which the program ends when \<^verbatim>\<open>execvp\<close> has replaced the child by
  that program.
\<close>

definition child_exit_status :: "int result \<Rightarrow> int \<Rightarrow> int option" where
  "child_exit_status res prog =
     (case res of Exits s \<Rightarrow> Some s | Execs a \<Rightarrow> Some prog | Returns v \<Rightarrow> None | Faults \<Rightarrow> None)"

section \<open>The argument array\<close>

lemma append_arg_simple:
  "argc c = int (length ws) \<Longrightarrow> argv c = argv_of ws \<Longrightarrow>
   command_append_arg c w = c\<lparr>argv := argv_of (ws @ [w]), argc := int (length (ws @ [w]))\<rparr>"
  by (cases "ws = []")
     (simp_all add: command_append_arg_def realloc_cells_def argv_of_def Let_def
        nat_add_distrib list_update_append numeral_2_eq_2)

lemma built_alloc: "built command_alloc"
  by (auto simp: built_def command_alloc_def argv_of_def intro: exI [of _ "[]"])

lemma built_append: "built c \<Longrightarrow> built (command_append_arg c w)"
proof -
  assume "built c"
  then obtain ws where ws: "argc c = int (length ws)" "argv c = argv_of ws" "pid c = - 1"
    by (auto simp: built_def)
  have "command_append_arg c w = c\<lparr>argv := argv_of (ws @ [w]), argc := int (length (ws @ [w]))\<rparr>"
    using ws(1,2) by (rule append_arg_simple)
  then show ?thesis using ws(3) unfolding built_def by (intro exI [of _ "ws @ [w]"]) simp
qed

lemma built_background: "built c \<Longrightarrow> built (c\<lparr>background := b\<rparr>)"
  by (simp add: built_def)

lemma build_loop_built:
  "\<forall>c \<in> set done. built c \<Longrightarrow> built cur \<Longrightarrow> c \<in> set (build_loop toks done cur) \<Longrightarrow> built c"
proof (induction toks "done" cur rule: build_loop.induct)
  case (1 "done" cur)
  then show ?case by auto
next
  case (2 ty tok rest "done" cur)
  then show ?case
    by (auto simp: Let_def built_append built_background built_alloc split: if_splits)
qed

lemma build_commands_built: "c \<in> set (build_commands toks) \<Longrightarrow> built c"
  unfolding build_commands_def using build_loop_built [of "[]" command_alloc c toks]
  by (simp add: built_alloc)

lemma built_shape:
  assumes "built c" "0 < argc c"
  shows "length (argv c) = nat (argc c) + 1"
    and "\<forall>i < nat (argc c). \<exists>s. argv c ! i = Str s"
    and "argv c ! nat (argc c) = Null"
proof -
  from assms obtain ws where ws: "argc c = int (length ws)" "argv c = argv_of ws" "ws \<noteq> []"
    by (auto simp: built_def)
  show "length (argv c) = nat (argc c) + 1" using ws by (simp add: argv_of_def)
  show "\<forall>i < nat (argc c). \<exists>s. argv c ! i = Str s" using ws by (simp add: argv_of_def nth_append)
  show "argv c ! nat (argc c) = Null" using ws by (simp add: argv_of_def nth_append)
qed

text \<open>
  The first two cells of the array of a command with at least one word.
\<close>

lemma cell_at_argv_of_0: "cell_at (argv_of (w # ws)) 0 = Str w"
  by (simp add: cell_at_def argv_of_def)

lemma cell_at_argv_of_1:
  "cell_at (argv_of (w # ws)) (Suc 0) = (case ws of [] \<Rightarrow> Null | v # vs \<Rightarrow> Str v)"
  by (cases ws) (simp_all add: cell_at_def argv_of_def)

lemma built_cases:
  assumes "built c" "argc c \<noteq> 0"
  obtains w ws where "argv c = argv_of (w # ws)" "argc c = int (length (w # ws))" "pid c = - 1"
proof -
  from assms obtain xs where xs: "argc c = int (length xs)" "argv c = argv_of xs" "pid c = - 1"
    by (auto simp: built_def)
  with assms(2) obtain w ws where "xs = w # ws" by (cases xs) auto
  with xs that show thesis by blast
qed

lemma built_cell0:
  "built c \<Longrightarrow> argc c \<noteq> 0 \<Longrightarrow> \<exists>a0. cell_at (argv c) 0 = Str a0"
  by (erule built_cases) (simp_all add: cell_at_argv_of_0)

lemma built_cell1:
  "built c \<Longrightarrow> argc c \<noteq> 0 \<Longrightarrow> cell_at (argv c) 1 \<noteq> Uninit"
  by (erule built_cases) (simp_all add: cell_at_argv_of_1 split: list.splits)

lemma simple_command_Nil: "simple_command [] = command_alloc"
  by (simp add: simple_command_def command_alloc_def argv_of_def)

lemma append_simple_command:
  "command_append_arg (simple_command xs) w = simple_command (xs @ [w])"
  using append_arg_simple [of "simple_command xs" xs w] by (simp add: simple_command_def)

lemma foldl_simple_command:
  "foldl command_append_arg (simple_command xs) ws = simple_command (xs @ ws)"
  by (induction ws arbitrary: xs) (simp_all add: append_simple_command)

lemma built_simple_command: "built (simple_command ws)"
  by (auto simp: built_def simple_command_def)

section \<open>Where the events of a line come from\<close>

text \<open>
  Every event of \<^verbatim>\<open>run_list\<close> is an event of one turn of its loop, on a command of the
  list that has arguments. Every event of \<^verbatim>\<open>eval_line\<close> is one of the non-blocking
  \<^verbatim>\<open>waitpid\<close> calls of the token loop, or such an event.
\<close>

lemma run_list_event_origin:
  "e \<in> set (fst (run_list cs env)) \<Longrightarrow>
   \<exists>c \<in> set cs. \<exists>r. argc c \<noteq> 0 \<and> e \<in> set (fst (run_one c r))"
proof (induction cs arbitrary: env)
  case Nil
  then show ?case by simp
next
  case (Cons c cs)
  show ?case
  proof (cases "argc c = 0")
    case True
    with Cons.prems show ?thesis by simp
  next
    case False
    obtain es res where ro: "run_one c (env 0) = (es, res)" by (cases "run_one c (env 0)")
    show ?thesis
    proof (cases "e \<in> set es")
      case True
      with ro False show ?thesis by (intro bexI [of _ c] exI [of _ "env 0"]) simp_all
    next
      case ne: False
      obtain es' r' where rl: "run_list cs (\<lambda>i. env (Suc i)) = (es', r')"
        by (cases "run_list cs (\<lambda>i. env (Suc i))")
      have "e \<in> set es'"
        using Cons.prems False ro ne rl by (cases res; cases "cs = []") auto
      then have "e \<in> set (fst (run_list cs (\<lambda>i. env (Suc i))))" by (simp add: rl)
      from Cons.IH [OF this] show ?thesis by auto
    qed
  qed
qed

lemma eval_line_event_origin:
  assumes "e \<in> set (fst (eval_line toks env))"
  shows "e = Waitpid (- 1) WNOHANG
       \<or> (\<exists>c \<in> set (build_commands toks). \<exists>r. argc c \<noteq> 0 \<and> e \<in> set (fst (run_one c r)))"
proof (cases "build_commands toks")
  case Nil
  with assms show ?thesis by (auto simp: eval_line_def reaps_def)
next
  case (Cons c1 cs)
  show ?thesis
  proof (cases "argc c1 = 0")
    case True
    with assms Cons show ?thesis by (auto simp: eval_line_def reaps_def)
  next
    case False
    obtain es r where rl: "run_list (c1 # cs) env = (es, r)" by (cases "run_list (c1 # cs) env")
    from assms have "e \<in> set (reaps toks) \<or> e \<in> set (fst (run_list (c1 # cs) env))"
      unfolding eval_line_def Cons using False rl by (auto simp del: run_list.simps)
    then show ?thesis
    proof
      assume "e \<in> set (reaps toks)"
      then show ?thesis by (auto simp: reaps_def)
    next
      assume "e \<in> set (fst (run_list (c1 # cs) env))"
      from run_list_event_origin [OF this] show ?thesis unfolding Cons by blast
    qed
  qed
qed

lemma run_one_execvp:
  "Execvp f a \<in> set (fst (run_one c r)) \<Longrightarrow> a = argv c \<and> cell_at (argv c) 0 = Str f"
  by (auto simp: run_one_def start_command_def Let_def split: cell.splits if_splits)

lemma run_one_fork:
  "Fork a p \<in> set (fst (run_one c r)) \<Longrightarrow> a = argv c \<and> (\<exists>f. cell_at (argv c) 0 = Str f)"
  by (auto simp: run_one_def start_command_def Let_def split: cell.splits if_splits)

lemma execvp_argv_shape:
  assumes "Execvp f a \<in> set (fst (eval_line toks env))"
  shows "\<exists>ws. ws \<noteq> [] \<and> f = hd ws \<and> a = map Str ws @ [Null]"
proof -
  from eval_line_event_origin [OF assms]
  obtain c r where c: "c \<in> set (build_commands toks)" "argc c \<noteq> 0"
      "Execvp f a \<in> set (fst (run_one c r))" by auto
  from run_one_execvp [OF c(3)] have a: "a = argv c" "cell_at (argv c) 0 = Str f" by auto
  from built_cases [OF build_commands_built [OF c(1)] c(2)]
  obtain w ws where w: "argv c = argv_of (w # ws)" by metis
  have "f = w" using a(2) unfolding w by (simp add: cell_at_argv_of_0)
  then show ?thesis using a(1) w by (intro exI [of _ "w # ws"]) (simp add: argv_of_def)
qed

lemma forked_append: "forked (xs @ ys) = forked xs @ forked ys"
  by (simp add: forked_def)

lemma fork_argv_nonempty:
  assumes "a \<in> set (forked (fst (eval_line toks env)))"
  shows "a \<noteq> []"
proof -
  from assms obtain p where "Fork a p \<in> set (fst (eval_line toks env))"
    by (auto simp: forked_def split: event.splits)
  from eval_line_event_origin [OF this]
  obtain c r where c: "Fork a p \<in> set (fst (run_one c r))" by auto
  from run_one_fork [OF c] show ?thesis by (auto simp: cell_at_def split: if_splits)
qed

section \<open>The argument array handed to execvp\<close>

text \<open>
  C10. Every command that \<^verbatim>\<open>eval_line\<close> builds, from any sequence of tokens, and that
  has \<open>argc > 0\<close> holds an array of exactly \<open>argc + 1\<close> cells: \<open>argc\<close> pointers to
  strings, none of them NULL or unwritten, and the NULL pointer at index \<open>argc\<close>.
  \<^verbatim>\<open>command_append_arg\<close> establishes this. It is why every array that reaches
  \<^verbatim>\<open>execvp\<close> while a line is evaluated is a non-empty run of strings closed by NULL,
  whose first string is the program that is looked up.
\<close>

theorem argv_null_terminated:
  "(c \<in> set (build_commands toks) \<longrightarrow> 0 < argc c \<longrightarrow>
      length (argv c) = nat (argc c) + 1
      \<and> (\<forall>i < nat (argc c). \<exists>s. argv c ! i = Str s)
      \<and> argv c ! nat (argc c) = Null)
   \<and> (Execvp f a \<in> set (fst (eval_line toks env)) \<longrightarrow>
      (\<exists>ws. ws \<noteq> [] \<and> f = hd ws \<and> a = map Str ws @ [Null]))"
  using built_shape [OF build_commands_built, of c toks] execvp_argv_shape [of f a toks env]
  by blast

theorem argv_null_terminated_witness:
  "simple_command [''echo'', ''hi'']
     \<in> set (build_commands [(TOKEN_NORMAL, ''echo''), (TOKEN_NORMAL, ''hi'')])
   \<and> 0 < argc (simple_command [''echo'', ''hi''])
   \<and> length (argv (simple_command [''echo'', ''hi''])) = 3
   \<and> argv (simple_command [''echo'', ''hi'']) ! 2 = Null
   \<and> Execvp ''echo'' [Str ''echo'', Str ''hi'', Null]
       \<in> set (fst (eval_line [(TOKEN_NORMAL, ''echo''), (TOKEN_NORMAL, ''hi'')] child_env))
   \<and> (\<exists>ws. ws \<noteq> [] \<and> ''echo'' = hd ws \<and> [Str ''echo'', Str ''hi'', Null] = map Str ws @ [Null])"
proof -
  have m: "simple_command [''echo'', ''hi'']
             \<in> set (build_commands [(TOKEN_NORMAL, ''echo''), (TOKEN_NORMAL, ''hi'')])"
    by code_simp
  have p: "0 < argc (simple_command [''echo'', ''hi''])"
    by (simp add: simple_command_def)
  have x: "Execvp ''echo'' [Str ''echo'', Str ''hi'', Null]
             \<in> set (fst (eval_line [(TOKEN_NORMAL, ''echo''), (TOKEN_NORMAL, ''hi'')] child_env))"
    by code_simp
  show ?thesis
    using m p x
      argv_null_terminated [of "simple_command [''echo'', ''hi'']"
        "[(TOKEN_NORMAL, ''echo''), (TOKEN_NORMAL, ''hi'')]" "''echo''"
        "[Str ''echo'', Str ''hi'', Null]" child_env]
    by (simp add: simple_command_def)
qed

section \<open>What start\_command returns to the shell\<close>

text \<open>
  C9. For every command that \<^verbatim>\<open>eval_line\<close> builds and that is not a builtin, when
  \<^verbatim>\<open>fork\<close> succeeds, \<^verbatim>\<open>start_command\<close> returns \<open>-1\<close> in the shell and not the
  process ID of the child that \<^verbatim>\<open>fork\<close> returned: the field \<^verbatim>\<open>pid\<close> still holds
  the \<open>-1\<close> of \<^verbatim>\<open>command_alloc\<close>, the shell's command is left as it was, and only the
  child's copy gets a new value (0). The \<^verbatim>\<open>waitpid\<close> of \<^verbatim>\<open>run_list\<close> for such a
  command, when it is not a background command, is therefore \<^verbatim>\<open>waitpid(-1, _, 0)\<close>.
\<close>

theorem start_command_parent_returns_minus_one:
  assumes "c \<in> set (build_commands toks)"
    and "cell_at (argv c) 0 = Str a0" and "a0 \<noteq> BUILTIN_CD" and "a0 \<noteq> BUILTIN_EXIT"
    and "0 < fork_ret r"
  shows "start_command c pgid r = (c, [Fork (argv c) (fork_ret r)], Returns (- 1))
       \<and> - 1 \<noteq> fork_ret r
       \<and> pid (fst (start_command c pgid (r\<lparr>fork_ret := 0\<rparr>))) = 0
       \<and> run_one c r =
           ([Fork (argv c) (fork_ret r)] @ (if background c = 0 then [Waitpid (- 1) 0] else []),
            Returns ())"
proof -
  have "pid c = - 1" using build_commands_built [OF assms(1)] by (auto simp: built_def)
  then show ?thesis using assms(2-5)
    by (auto simp: start_command_def run_one_def Let_def)
qed

theorem start_command_parent_returns_minus_one_witness:
  "start_command (simple_command [''echo'', ''hi'']) 42 (parent_env 0)
     = (simple_command [''echo'', ''hi''], [Fork [Str ''echo'', Str ''hi'', Null] 1000], Returns (- 1))
   \<and> run_one (simple_command [''echo'', ''hi'']) (parent_env 0)
     = ([Fork [Str ''echo'', Str ''hi'', Null] 1000, Waitpid (- 1) 0], Returns ())"
proof -
  have m: "simple_command [''echo'', ''hi'']
             \<in> set (build_commands [(TOKEN_NORMAL, ''echo''), (TOKEN_NORMAL, ''hi'')])"
    by code_simp
  have a: "cell_at (argv (simple_command [''echo'', ''hi''])) 0 = Str ''echo''" by code_simp
  have b: "''echo'' \<noteq> BUILTIN_CD" "''echo'' \<noteq> BUILTIN_EXIT"
    by (simp_all add: BUILTIN_CD_def BUILTIN_EXIT_def)
  have p: "0 < fork_ret (parent_env 0)" by (simp add: parent_env_def)
  show ?thesis
    using start_command_parent_returns_minus_one [OF m a b p, of 42]
    by (simp add: parent_env_def simple_command_def argv_of_def)
qed

section \<open>Commands joined by a semicolon\<close>

text \<open>
  A turn of the loop on a command with arguments that is not \<^verbatim>\<open>exit\<close> returns to
  the loop in the shell, whatever the system calls answer.
\<close>

lemma run_one_returns:
  assumes "built c" "argc c \<noteq> 0" "cell_at (argv c) 0 \<noteq> Str BUILTIN_EXIT" "fork_ret r \<noteq> 0"
  shows "snd (run_one c r) = Returns ()"
proof -
  from built_cell0 [OF assms(1,2)] obtain a0 where a0: "cell_at (argv c) 0 = Str a0" by blast
  have u: "cell_at (argv c) 1 \<noteq> Uninit" by (rule built_cell1 [OF assms(1,2)])
  show ?thesis using a0 u assms(3,4)
    by (auto simp: run_one_def start_command_def Let_def split: cell.splits)
qed

lemma run_list_all:
  assumes "cs \<noteq> []"
    and "\<forall>c \<in> set cs. built c \<and> argc c \<noteq> 0 \<and> cell_at (argv c) 0 \<noteq> Str BUILTIN_EXIT"
    and "\<forall>i. fork_ret (env i) \<noteq> 0"
    and "rest = [] \<or> argc (hd rest) = 0"
  shows "run_list (cs @ rest) env =
           (concat (map (\<lambda>i. fst (run_one (cs ! i) (env i))) [0..<length cs]), Returns ())"
  using assms
proof (induction cs arbitrary: env)
  case Nil
  then show ?case by simp
next
  case (Cons c cs)
  have r: "snd (run_one c (env 0)) = Returns ()"
    using Cons.prems by (intro run_one_returns) auto
  then obtain es where es: "run_one c (env 0) = (es, Returns ())" by (cases "run_one c (env 0)") auto
  have nz: "argc c \<noteq> 0" using Cons.prems by simp
  show ?case
  proof (cases "cs = []")
    case True
    show ?thesis
    proof (cases rest)
      case Nil
      with True nz es show ?thesis by simp
    next
      case (Cons e rest')
      with Cons.prems(4) have "argc e = 0" by simp
      with True nz es Cons show ?thesis by simp
    qed
  next
    case False
    have ih: "run_list (cs @ rest) (\<lambda>i. env (Suc i)) =
           (concat (map (\<lambda>i. fst (run_one (cs ! i) (env (Suc i)))) [0..<length cs]), Returns ())"
      using Cons.prems False by (intro Cons.IH) auto
    have m: "map (\<lambda>i. fst (run_one ((c # cs) ! i) (env i))) [0..<Suc (length cs)]
           = fst (run_one c (env 0)) # map (\<lambda>i. fst (run_one (cs ! i) (env (Suc i)))) [0..<length cs]"
      by (simp add: map_upt_Suc del: upt_Suc)
    show ?thesis using nz es False ih by (simp add: m del: upt_Suc)
  qed
qed

text \<open>
  What the builder makes of words and semicolons.
\<close>

lemma build_loop_words:
  "build_loop (word_tokens ws @ rest) d cur = build_loop rest d (foldl command_append_arg cur ws)"
  by (induction ws arbitrary: cur)
     (simp_all add: word_tokens_def Let_def TOKEN_NORMAL_def TOKEN_SEQUENCE_def TOKEN_BACKGROUND_def)

lemma build_loop_seq:
  "wss \<noteq> [] \<Longrightarrow>
   build_loop (seq_line wss @ rest) d command_alloc =
     build_loop rest (d @ map simple_command (butlast wss)) (simple_command (last wss))"
proof (induction wss arbitrary: d rule: seq_line.induct)
  case 1
  then show ?case by simp
next
  case (2 ws)
  show ?case
    using build_loop_words [of ws rest d command_alloc] foldl_simple_command [of "[]" ws]
    by (simp add: simple_command_Nil)
next
  case (3 ws v wss)
  have "build_loop (seq_line (ws # v # wss) @ rest) d command_alloc
      = build_loop ((TOKEN_SEQUENCE, '';'') # seq_line (v # wss) @ rest) d (simple_command ws)"
    using build_loop_words [of ws "(TOKEN_SEQUENCE, '';'') # seq_line (v # wss) @ rest" d command_alloc]
      foldl_simple_command [of "[]" ws]
    by (simp add: simple_command_Nil)
  also have "\<dots> = build_loop (seq_line (v # wss) @ rest) (d @ [simple_command ws]) command_alloc"
    by (simp add: Let_def TOKEN_NORMAL_def TOKEN_SEQUENCE_def TOKEN_BACKGROUND_def)
  also have "\<dots> = build_loop rest ((d @ [simple_command ws]) @ map simple_command (butlast (v # wss)))
                        (simple_command (last (v # wss)))"
    by (rule "3.IH") simp
  finally show ?case by simp
qed

lemma build_commands_seq:
  assumes "wss \<noteq> []" and "trail = [] \<or> trail = [(TOKEN_SEQUENCE, '';'')]"
  shows "build_commands (seq_line wss @ trail) = map simple_command wss @ map (\<lambda>t. command_alloc) trail"
proof -
  have b: "map simple_command (butlast wss) @ [simple_command (last wss)] = map simple_command wss"
    using assms(1) by (metis append_butlast_last_id list.simps(8,9) map_append)
  show ?thesis
    using assms(2) build_loop_seq [OF assms(1), of trail "[]"] b
    by (auto simp: build_commands_def Let_def TOKEN_NORMAL_def TOKEN_SEQUENCE_def TOKEN_BACKGROUND_def)
qed

lemma forked_run_one:
  assumes "ws \<noteq> []" "hd ws \<noteq> BUILTIN_EXIT"
  shows "forked (fst (run_one (simple_command ws) r)) = (if hd ws = BUILTIN_CD then [] else [argv_of ws])"
proof -
  from assms(1) obtain w vs where ws: "ws = w # vs" by (cases ws) auto
  have a0: "cell_at (argv (simple_command ws)) 0 = Str w"
    by (simp add: simple_command_def ws cell_at_argv_of_0)
  have a1: "cell_at (argv (simple_command ws)) (Suc 0) \<noteq> Uninit"
    by (simp add: simple_command_def ws cell_at_argv_of_1 split: list.splits)
  show ?thesis using a0 a1 assms(2) ws
    by (auto simp: run_one_def start_command_def Let_def forked_def simple_command_def split: cell.splits)
qed

lemma concat_if_filter:
  "concat (map (\<lambda>x. if P x then [] else [f x]) xs) = map f (filter (\<lambda>x. \<not> P x) xs)"
  by (induction xs) auto

lemma forked_concat: "forked (concat xss) = concat (map forked xss)"
  by (induction xss) (simp_all add: forked_append, simp add: forked_def)

lemma sequence_trace:
  assumes "wss \<noteq> []"
    and "\<forall>ws \<in> set wss. ws \<noteq> [] \<and> hd ws \<noteq> BUILTIN_EXIT"
    and "\<forall>i. fork_ret (env i) \<noteq> 0"
    and "trail = [] \<or> trail = [(TOKEN_SEQUENCE, '';'')]"
  shows "eval_line (seq_line wss @ trail) env =
           (reaps (seq_line wss @ trail)
              @ concat (map (\<lambda>i. fst (run_one (simple_command (wss ! i)) (env i))) [0..<length wss]),
            Returns ())
       \<and> forked (fst (eval_line (seq_line wss @ trail) env)) =
           map argv_of (filter (\<lambda>ws. hd ws \<noteq> BUILTIN_CD) wss)"
proof -
  let ?cs = "map simple_command wss" and ?rest = "map (\<lambda>t. command_alloc) trail"
  have b: "build_commands (seq_line wss @ trail) = ?cs @ ?rest"
    by (rule build_commands_seq [OF assms(1,4)])
  have ok: "\<forall>c \<in> set ?cs. built c \<and> argc c \<noteq> 0 \<and> cell_at (argv c) 0 \<noteq> Str BUILTIN_EXIT"
  proof
    fix c assume "c \<in> set ?cs"
    then obtain ws where ws: "ws \<in> set wss" "c = simple_command ws" by auto
    with assms(2) obtain w vs where wv: "ws = w # vs" "w \<noteq> BUILTIN_EXIT" by (cases ws) auto
    show "built c \<and> argc c \<noteq> 0 \<and> cell_at (argv c) 0 \<noteq> Str BUILTIN_EXIT"
      using ws(2) wv by (simp add: built_simple_command) (simp add: simple_command_def cell_at_argv_of_0)
  qed
  have rest: "?rest = [] \<or> argc (hd ?rest) = 0"
    using assms(4) by (auto simp: command_alloc_def)
  have rl: "run_list (?cs @ ?rest) env =
      (concat (map (\<lambda>i. fst (run_one (?cs ! i) (env i))) [0..<length ?cs]), Returns ())"
    using assms(1) by (intro run_list_all [OF _ ok assms(3) rest]) simp
  have ix: "map (\<lambda>i. fst (run_one (?cs ! i) (env i))) [0..<length ?cs]
          = map (\<lambda>i. fst (run_one (simple_command (wss ! i)) (env i))) [0..<length wss]"
    by simp
  obtain ws0 wss0 where w0: "wss = ws0 # wss0" using assms(1) by (cases wss) auto
  have hd_nz: "argc (simple_command ws0) \<noteq> 0" using assms(2) w0 by (simp add: simple_command_def)
  have ev: "eval_line (seq_line wss @ trail) env =
           (reaps (seq_line wss @ trail)
              @ concat (map (\<lambda>i. fst (run_one (simple_command (wss ! i)) (env i))) [0..<length wss]),
            Returns ())"
    unfolding eval_line_def b using rl hd_nz unfolding ix by (simp add: w0)
  have fr: "forked (reaps (seq_line wss @ trail)) = []"
    by (simp add: reaps_def forked_def)
  have "forked (concat (map (\<lambda>i. fst (run_one (simple_command (wss ! i)) (env i))) [0..<length wss]))
      = concat (map (\<lambda>i. if hd (wss ! i) = BUILTIN_CD then [] else [argv_of (wss ! i)]) [0..<length wss])"
  proof -
    have h: "\<And>i. i < length wss \<Longrightarrow>
        forked (fst (run_one (simple_command (wss ! i)) (env i)))
          = (if hd (wss ! i) = BUILTIN_CD then [] else [argv_of (wss ! i)])"
      using assms(2) by (intro forked_run_one) auto
    have eq: "map (\<lambda>i. forked (fst (run_one (simple_command (wss ! i)) (env i)))) [0..<length wss]
        = map (\<lambda>i. if hd (wss ! i) = BUILTIN_CD then [] else [argv_of (wss ! i)]) [0..<length wss]"
      by (rule map_cong [OF refl]) (simp add: h)
    show ?thesis by (simp only: forked_concat map_map comp_def eq)
  qed
  also have "\<dots> = concat (map (\<lambda>ws. if hd ws = BUILTIN_CD then [] else [argv_of ws]) (map (\<lambda>i. wss ! i) [0..<length wss]))"
    by (simp add: comp_def)
  also have "\<dots> = map argv_of (filter (\<lambda>ws. hd ws \<noteq> BUILTIN_CD) wss)"
    by (simp only: map_nth concat_if_filter)
  finally show ?thesis using ev fr by (simp add: forked_append)
qed

lemma run_one_external:
  assumes "ws \<noteq> []" "hd ws \<noteq> BUILTIN_CD" "hd ws \<noteq> BUILTIN_EXIT" "0 < fork_ret r"
  shows "fst (run_one (simple_command ws) r) = [Fork (argv_of ws) (fork_ret r), Waitpid (- 1) 0]"
proof -
  from assms(1) obtain w vs where ws: "ws = w # vs" by (cases ws) auto
  have a0: "cell_at (argv (simple_command ws)) 0 = Str w"
    by (simp add: simple_command_def ws cell_at_argv_of_0)
  show ?thesis using a0 assms(2-4) ws
    by (auto simp: run_one_def start_command_def Let_def simple_command_def)
qed

lemma external_turns:
  assumes "\<forall>ws \<in> set wss. ws \<noteq> [] \<and> hd ws \<noteq> BUILTIN_CD \<and> hd ws \<noteq> BUILTIN_EXIT"
    and "\<forall>i. 0 < fork_ret (env i)"
  shows "map (\<lambda>i. fst (run_one (simple_command (wss ! i)) (env i))) [0..<length wss]
       = map (\<lambda>i. [Fork (argv_of (wss ! i)) (fork_ret (env i)), Waitpid (- 1) 0]) [0..<length wss]"
proof (rule map_cong [OF refl])
  fix i assume "i \<in> set [0..<length wss]"
  then have "wss ! i \<in> set wss" by simp
  with assms show "fst (run_one (simple_command (wss ! i)) (env i))
      = [Fork (argv_of (wss ! i)) (fork_ret (env i)), Waitpid (- 1) 0]"
    by (intro run_one_external) auto
qed

text \<open>
  What the loop does on a line of commands joined by \<^verbatim>\<open>;\<close> (with or without a
  closing \<^verbatim>\<open>;\<close>) in which every command has at least one word and none is
  \<^verbatim>\<open>exit\<close>: the trace of the line is the non-blocking \<^verbatim>\<open>waitpid\<close> calls of the
  token loop followed by the events of one loop turn per command, first command first,
  whatever the system calls answer. No exit status is read anywhere. \<^verbatim>\<open>fork\<close> is
  called once for each command that is not \<^verbatim>\<open>cd\<close>, in the order written. When no
  command is \<^verbatim>\<open>cd\<close> and every \<^verbatim>\<open>fork\<close> succeeds, the trace is, for each command in
  turn, its \<^verbatim>\<open>fork\<close> and then a blocking \<^verbatim>\<open>waitpid\<close> for any child process. Lines
  with an empty command are another matter: see the next section.
\<close>

lemma sequence_runs_every_command:
  assumes "wss \<noteq> []"
    and "\<forall>ws \<in> set wss. ws \<noteq> [] \<and> hd ws \<noteq> BUILTIN_EXIT"
    and "\<forall>i. fork_ret (env i) \<noteq> 0"
    and "trail = [] \<or> trail = [(TOKEN_SEQUENCE, '';'')]"
  shows "eval_line (seq_line wss @ trail) env =
           (reaps (seq_line wss @ trail)
              @ concat (map (\<lambda>i. fst (run_one (simple_command (wss ! i)) (env i))) [0..<length wss]),
            Returns ())
       \<and> forked (fst (eval_line (seq_line wss @ trail) env)) =
           map argv_of (filter (\<lambda>ws. hd ws \<noteq> BUILTIN_CD) wss)
       \<and> ((\<forall>ws \<in> set wss. hd ws \<noteq> BUILTIN_CD) \<and> (\<forall>i. 0 < fork_ret (env i)) \<longrightarrow>
           eval_line (seq_line wss @ trail) env =
             (reaps (seq_line wss @ trail)
                @ concat (map (\<lambda>i. [Fork (argv_of (wss ! i)) (fork_ret (env i)), Waitpid (- 1) 0])
                            [0..<length wss]),
              Returns ()))"
proof -
  note t = sequence_trace [OF assms]
  have "eval_line (seq_line wss @ trail) env =
             (reaps (seq_line wss @ trail)
                @ concat (map (\<lambda>i. [Fork (argv_of (wss ! i)) (fork_ret (env i)), Waitpid (- 1) 0])
                            [0..<length wss]),
              Returns ())"
    if h: "(\<forall>ws \<in> set wss. hd ws \<noteq> BUILTIN_CD) \<and> (\<forall>i. 0 < fork_ret (env i))"
  proof -
    have e: "map (\<lambda>i. fst (run_one (simple_command (wss ! i)) (env i))) [0..<length wss]
         = map (\<lambda>i. [Fork (argv_of (wss ! i)) (fork_ret (env i)), Waitpid (- 1) 0]) [0..<length wss]"
      using assms(2) h by (intro external_turns) auto
    show ?thesis using t unfolding e by blast
  qed
  with t show ?thesis by blast
qed

lemma sequence_runs_every_command_example:
  "(eval_line (seq_line [[''echo'', ''a''], [''cd'', ''/tmp''], [''false''], [''echo'', ''b'']] @ []) parent_env
     = (reaps (seq_line [[''echo'', ''a''], [''cd'', ''/tmp''], [''false''], [''echo'', ''b'']] @ [])
          @ concat [[Fork [Str ''echo'', Str ''a'', Null] 1000, Waitpid (- 1) 0],
                    [Chdir (Str ''/tmp'') 0, Waitpid 0 0],
                    [Fork [Str ''false'', Null] 1002, Waitpid (- 1) 0],
                    [Fork [Str ''echo'', Str ''b'', Null] 1003, Waitpid (- 1) 0]],
        Returns ())
   \<and> forked (fst (eval_line (seq_line [[''echo'', ''a''], [''cd'', ''/tmp''], [''false''], [''echo'', ''b'']] @ []) parent_env))
     = [[Str ''echo'', Str ''a'', Null], [Str ''false'', Null], [Str ''echo'', Str ''b'', Null]])
   \<and> eval_line (seq_line [[''false''], [''echo'', ''b'']] @ [(TOKEN_SEQUENCE, '';'')]) parent_env
     = (reaps (seq_line [[''false''], [''echo'', ''b'']] @ [(TOKEN_SEQUENCE, '';'')])
          @ concat [[Fork [Str ''false'', Null] 1000, Waitpid (- 1) 0],
                    [Fork [Str ''echo'', Str ''b'', Null] 1001, Waitpid (- 1) 0]],
        Returns ())"
proof -
  have 1: "[[''echo'', ''a''], [''cd'', ''/tmp''], [''false''], [''echo'', ''b'']] \<noteq> []" by simp
  have 2: "\<forall>ws \<in> set [[''echo'', ''a''], [''cd'', ''/tmp''], [''false''], [''echo'', ''b'']].
             ws \<noteq> [] \<and> hd ws \<noteq> BUILTIN_EXIT"
    by (simp add: BUILTIN_EXIT_def)
  have 3: "\<forall>i. fork_ret (parent_env i) \<noteq> 0" by (simp add: parent_env_def)
  have 4: "([]::token list) = [] \<or> ([]::token list) = [(TOKEN_SEQUENCE, '';'')]" by simp
  have e: "map (\<lambda>i. fst (run_one (simple_command ([[''echo'', ''a''], [''cd'', ''/tmp''], [''false''], [''echo'', ''b'']] ! i)) (parent_env i)))
             [0..<length [[''echo'', ''a''], [''cd'', ''/tmp''], [''false''], [''echo'', ''b'']]]
      = [[Fork [Str ''echo'', Str ''a'', Null] 1000, Waitpid (- 1) 0],
         [Chdir (Str ''/tmp'') 0, Waitpid 0 0],
         [Fork [Str ''false'', Null] 1002, Waitpid (- 1) 0],
         [Fork [Str ''echo'', Str ''b'', Null] 1003, Waitpid (- 1) 0]]"
    by code_simp
  have f: "map argv_of (filter (\<lambda>ws. hd ws \<noteq> BUILTIN_CD) [[''echo'', ''a''], [''cd'', ''/tmp''], [''false''], [''echo'', ''b'']])
      = [[Str ''echo'', Str ''a'', Null], [Str ''false'', Null], [Str ''echo'', Str ''b'', Null]]"
    by code_simp
  have A: "eval_line (seq_line [[''echo'', ''a''], [''cd'', ''/tmp''], [''false''], [''echo'', ''b'']] @ []) parent_env
     = (reaps (seq_line [[''echo'', ''a''], [''cd'', ''/tmp''], [''false''], [''echo'', ''b'']] @ [])
          @ concat [[Fork [Str ''echo'', Str ''a'', Null] 1000, Waitpid (- 1) 0],
                    [Chdir (Str ''/tmp'') 0, Waitpid 0 0],
                    [Fork [Str ''false'', Null] 1002, Waitpid (- 1) 0],
                    [Fork [Str ''echo'', Str ''b'', Null] 1003, Waitpid (- 1) 0]],
        Returns ())
   \<and> forked (fst (eval_line (seq_line [[''echo'', ''a''], [''cd'', ''/tmp''], [''false''], [''echo'', ''b'']] @ []) parent_env))
     = [[Str ''echo'', Str ''a'', Null], [Str ''false'', Null], [Str ''echo'', Str ''b'', Null]]"
    using sequence_runs_every_command [OF 1 2 3 4] unfolding e f by blast
  have 5: "[[''false''], [''echo'', ''b'']] \<noteq> []" by simp
  have 6: "\<forall>ws \<in> set [[''false''], [''echo'', ''b'']]. ws \<noteq> [] \<and> hd ws \<noteq> BUILTIN_EXIT"
    by (simp add: BUILTIN_EXIT_def)
  have 7: "[(TOKEN_SEQUENCE, '';'')] = [] \<or> [(TOKEN_SEQUENCE, '';'')] = [(TOKEN_SEQUENCE, '';'')]"
    by simp
  have 8: "(\<forall>ws \<in> set [[''false''], [''echo'', ''b'']]. hd ws \<noteq> BUILTIN_CD)
         \<and> (\<forall>i. 0 < fork_ret (parent_env i))"
    by (simp add: BUILTIN_CD_def parent_env_def)
  have g: "map (\<lambda>i. [Fork (argv_of ([[''false''], [''echo'', ''b'']] ! i)) (fork_ret (parent_env i)), Waitpid (- 1) 0])
             [0..<length [[''false''], [''echo'', ''b'']]]
         = [[Fork [Str ''false'', Null] 1000, Waitpid (- 1) 0],
            [Fork [Str ''echo'', Str ''b'', Null] 1001, Waitpid (- 1) 0]]"
    by code_simp
  have B: "eval_line (seq_line [[''false''], [''echo'', ''b'']] @ [(TOKEN_SEQUENCE, '';'')]) parent_env
     = (reaps (seq_line [[''false''], [''echo'', ''b'']] @ [(TOKEN_SEQUENCE, '';'')])
          @ concat [[Fork [Str ''false'', Null] 1000, Waitpid (- 1) 0],
                    [Fork [Str ''echo'', Str ''b'', Null] 1001, Waitpid (- 1) 0]],
        Returns ())"
    using sequence_runs_every_command [OF 5 6 3 7] 8 unfolding g by blast
  from A B show ?thesis by blast
qed

section \<open>Empty commands\<close>

text \<open>
  The loop of \<^verbatim>\<open>run_list\<close> ends at the first command without arguments: what follows
  that command in the list has no effect.
\<close>

lemma run_list_stops_at_empty:
  "argc e = 0 \<Longrightarrow> argc e' = 0 \<Longrightarrow> run_list (xs @ e # ys) env = run_list (xs @ e' # ys') env"
proof (induction xs arbitrary: env)
  case Nil
  then show ?case by simp
next
  case (Cons x xs)
  then show ?case by (simp split: prod.splits result.splits)
qed

lemma build_loop_done: "build_loop toks d cur = d @ build_loop toks [] cur"
proof (induction toks arbitrary: d cur)
  case Nil
  show ?case by simp
next
  case (Cons t toks)
  obtain ty tok where t: "t = (ty, tok)" by (cases t)
  show ?case
    unfolding t
    using Cons.IH [of "d @ [_]" command_alloc] Cons.IH [of "[_]" command_alloc]
      Cons.IH [of d]
    by (simp add: Let_def)
qed

lemma build_loop_append:
  "build_loop (pre @ rest) d cur =
     build_loop rest (butlast (build_loop pre d cur)) (last (build_loop pre d cur))"
proof (induction pre arbitrary: d cur)
  case Nil
  show ?case by simp
next
  case (Cons t pre)
  obtain ty tok where t: "t = (ty, tok)" by (cases t)
  show ?case unfolding t by (simp add: Let_def Cons.IH)
qed

lemma build_loop_sep_last:
  assumes "fst s = TOKEN_SEQUENCE \<or> fst s = TOKEN_BACKGROUND"
  shows "\<exists>M. build_loop (pre @ [s]) d cur = M @ [command_alloc]"
proof -
  obtain ty tok where s: "s = (ty, tok)" by (cases s)
  have "build_loop (pre @ [s]) d cur =
      build_loop [s] (butlast (build_loop pre d cur)) (last (build_loop pre d cur))"
    by (rule build_loop_append)
  then show ?thesis using assms unfolding s by (auto simp: Let_def)
qed

lemma build_loop_sep_first:
  assumes "fst s = TOKEN_SEQUENCE \<or> fst s = TOKEN_BACKGROUND"
  shows "\<exists>e ys. argc e = 0 \<and> build_loop (s # post) M command_alloc = M @ e # ys"
proof -
  obtain ty tok where s: "s = (ty, tok)" by (cases s)
  have n: "ty \<noteq> TOKEN_NORMAL"
    using assms unfolding s by (auto simp: TOKEN_NORMAL_def TOKEN_SEQUENCE_def TOKEN_BACKGROUND_def)
  let ?e = "if ty = TOKEN_BACKGROUND then command_alloc\<lparr>background := 1\<rparr> else command_alloc"
  have "build_loop (s # post) M command_alloc = build_loop post (M @ [?e]) command_alloc"
    using assms n unfolding s by (simp add: Let_def)
  also have "\<dots> = (M @ [?e]) @ build_loop post [] command_alloc"
    by (rule build_loop_done)
  finally have "build_loop (s # post) M command_alloc = M @ ?e # build_loop post [] command_alloc"
    by simp
  moreover have "argc ?e = 0" by (simp add: command_alloc_def)
  ultimately show ?thesis by blast
qed

lemma reaps_append: "reaps (xs @ ys) = reaps ys @ reaps xs"
  by (simp add: reaps_def map_replicate_const flip: replicate_add)

text \<open>
  C8 does not hold of the code. In the line \<^verbatim>\<open>echo a ; ; echo b\<close> there is an empty
  command between two \<^verbatim>\<open>;\<close>. The claim asks that it is skipped and that the other
  commands of the list run. The shell starts \<^verbatim>\<open>echo a\<close> and waits, and that is all:
  the loop of \<^verbatim>\<open>run_list\<close> ends at the empty command although the list goes on, and
  \<^verbatim>\<open>echo b\<close>, a non-empty command of the same list, is never started.
\<close>

theorem empty_command_blocks_rest:
  "fst (eval_line [(TOKEN_NORMAL, ''echo''), (TOKEN_NORMAL, ''a''), (TOKEN_SEQUENCE, '';''),
                   (TOKEN_SEQUENCE, '';''), (TOKEN_NORMAL, ''echo''), (TOKEN_NORMAL, ''b'')] parent_env)
     = replicate 6 (Waitpid (- 1) WNOHANG) @ [Fork [Str ''echo'', Str ''a'', Null] 1000, Waitpid (- 1) 0]
   \<and> [Str ''echo'', Str ''b'', Null]
       \<notin> set (forked (fst (eval_line [(TOKEN_NORMAL, ''echo''), (TOKEN_NORMAL, ''a''),
                   (TOKEN_SEQUENCE, '';''), (TOKEN_SEQUENCE, '';''),
                   (TOKEN_NORMAL, ''echo''), (TOKEN_NORMAL, ''b'')] parent_env)))"
  by code_simp

text \<open>
  C7 does not hold of the code, by the same early end of the loop. The line
  \<^verbatim>\<open>echo a ; ; echo b ; echo c\<close> is a list of commands joined by \<^verbatim>\<open>;\<close>, and the
  claim asks that they are executed one after another in the order written. The shell
  calls \<^verbatim>\<open>fork\<close> once, for \<^verbatim>\<open>echo a\<close>: neither \<^verbatim>\<open>echo b\<close> nor \<^verbatim>\<open>echo c\<close>
  is ever started.
\<close>

theorem empty_command_stops_sequence:
  "eval_line [(TOKEN_NORMAL, ''echo''), (TOKEN_NORMAL, ''a''), (TOKEN_SEQUENCE, '';''),
              (TOKEN_SEQUENCE, '';''), (TOKEN_NORMAL, ''echo''), (TOKEN_NORMAL, ''b''),
              (TOKEN_SEQUENCE, '';''), (TOKEN_NORMAL, ''echo''), (TOKEN_NORMAL, ''c'')] parent_env
     = (replicate 9 (Waitpid (- 1) WNOHANG)
          @ [Fork [Str ''echo'', Str ''a'', Null] 1000, Waitpid (- 1) 0],
        Returns ())
   \<and> forked (fst (eval_line [(TOKEN_NORMAL, ''echo''), (TOKEN_NORMAL, ''a''), (TOKEN_SEQUENCE, '';''),
              (TOKEN_SEQUENCE, '';''), (TOKEN_NORMAL, ''echo''), (TOKEN_NORMAL, ''b''),
              (TOKEN_SEQUENCE, '';''), (TOKEN_NORMAL, ''echo''), (TOKEN_NORMAL, ''c'')] parent_env))
     = [[Str ''echo'', Str ''a'', Null]]"
  by code_simp

text \<open>
  The same happens on every line. A line with no tokens makes no system call at all, and
  no \<^verbatim>\<open>fork\<close> is ever called for a command without arguments. But wherever an empty
  command stands between two control operators (each \<^verbatim>\<open>;\<close> or \<^verbatim>\<open>&\<close>), the line
  behaves as the line cut after the first of the two operators, except for one more
  non-blocking \<^verbatim>\<open>waitpid\<close> per token that was cut off.
\<close>

lemma empty_command_ends_list:
  assumes "fst s1 = TOKEN_SEQUENCE \<or> fst s1 = TOKEN_BACKGROUND"
    and "fst s2 = TOKEN_SEQUENCE \<or> fst s2 = TOKEN_BACKGROUND"
  shows "eval_line [] env = ([], Returns ())
       \<and> [] \<notin> set (forked (fst (eval_line toks env)))
       \<and> eval_line (pre @ [s1] @ s2 # post) env =
           (case eval_line (pre @ [s1]) env of (es, r) \<Rightarrow> (reaps (s2 # post) @ es, r))"
proof -
  have empty: "eval_line [] env = ([], Returns ())"
    by (simp add: eval_line_def build_commands_def reaps_def command_alloc_def)
  obtain M where M: "build_commands (pre @ [s1]) = M @ [command_alloc]"
    using build_loop_sep_last [OF assms(1)] unfolding build_commands_def by blast
  have "build_commands ((pre @ [s1]) @ s2 # post) = build_loop (s2 # post) M command_alloc"
    unfolding build_commands_def build_loop_append [of "pre @ [s1]"]
    using M by (simp add: build_commands_def)
  then obtain e ys where e: "argc e = 0" "build_commands ((pre @ [s1]) @ s2 # post) = M @ e # ys"
    using build_loop_sep_first [OF assms(2)] by metis
  have z: "argc command_alloc = 0" by (simp add: command_alloc_def)
  have r: "reaps ((pre @ [s1]) @ s2 # post) = reaps (s2 # post) @ reaps (pre @ [s1])"
    by (rule reaps_append)
  have "eval_line ((pre @ [s1]) @ s2 # post) env =
           (case eval_line (pre @ [s1]) env of (es, r) \<Rightarrow> (reaps (s2 # post) @ es, r))"
  proof (cases M)
    case Nil
    then show ?thesis using e z M r unfolding eval_line_def by simp
  next
    case (Cons m M')
    have rl: "run_list (m # M' @ e # ys) env = run_list (m # M' @ [command_alloc]) env"
      using run_list_stops_at_empty [OF e(1) z, of "m # M'" ys env "[]"] by simp
    obtain es res where er: "run_list (m # M' @ [command_alloc]) env = (es, res)"
      by (cases "run_list (m # M' @ [command_alloc]) env")
    have big: "eval_line ((pre @ [s1]) @ s2 # post) env =
        (if argc m \<noteq> 0 then (reaps ((pre @ [s1]) @ s2 # post) @ es, res)
         else (reaps ((pre @ [s1]) @ s2 # post), Returns ()))"
      unfolding eval_line_def e(2) Cons using rl er by (simp del: run_list.simps)
    have small: "eval_line (pre @ [s1]) env =
        (if argc m \<noteq> 0 then (reaps (pre @ [s1]) @ es, res) else (reaps (pre @ [s1]), Returns ()))"
      unfolding eval_line_def M Cons using er by (simp del: run_list.simps)
    show ?thesis unfolding big small r by simp
  qed
  with empty fork_argv_nonempty [of "[]" toks env] show ?thesis by auto
qed

lemma empty_command_ends_list_example:
  "eval_line ([(TOKEN_NORMAL, ''echo''), (TOKEN_NORMAL, ''a'')] @ [(TOKEN_SEQUENCE, '';'')]
                @ (TOKEN_BACKGROUND, ''&'') # [(TOKEN_NORMAL, ''echo''), (TOKEN_NORMAL, ''b'')]) parent_env
     = (reaps ((TOKEN_BACKGROUND, ''&'') # [(TOKEN_NORMAL, ''echo''), (TOKEN_NORMAL, ''b'')])
          @ reaps ([(TOKEN_NORMAL, ''echo''), (TOKEN_NORMAL, ''a'')] @ [(TOKEN_SEQUENCE, '';'')])
          @ [Fork [Str ''echo'', Str ''a'', Null] 1000, Waitpid (- 1) 0],
        Returns ())"
proof -
  have 1: "fst (TOKEN_SEQUENCE, '';'') = TOKEN_SEQUENCE \<or> fst (TOKEN_SEQUENCE, '';'') = TOKEN_BACKGROUND"
    by simp
  have 2: "fst (TOKEN_BACKGROUND, ''&'') = TOKEN_SEQUENCE \<or> fst (TOKEN_BACKGROUND, ''&'') = TOKEN_BACKGROUND"
    by simp
  have c: "eval_line ([(TOKEN_NORMAL, ''echo''), (TOKEN_NORMAL, ''a'')] @ [(TOKEN_SEQUENCE, '';'')]) parent_env
      = (reaps ([(TOKEN_NORMAL, ''echo''), (TOKEN_NORMAL, ''a'')] @ [(TOKEN_SEQUENCE, '';'')])
          @ [Fork [Str ''echo'', Str ''a'', Null] 1000, Waitpid (- 1) 0], Returns ())"
    by code_simp
  show ?thesis
    using empty_command_ends_list [OF 1 2, of parent_env "[]" "[(TOKEN_NORMAL, ''echo''), (TOKEN_NORMAL, ''a'')]"
        "[(TOKEN_NORMAL, ''echo''), (TOKEN_NORMAL, ''b'')]"]
    unfolding c by simp
qed

section \<open>Background commands\<close>

text \<open>
  C3 does not hold of the code. The claim asks that after a command closed by \<^verbatim>\<open>&\<close>
  the shell goes on to the next command, and to the next lines, without blocking on the
  background command, which is reaped later by a non-blocking \<^verbatim>\<open>waitpid\<close>. The turn
  of the background command itself makes no \<^verbatim>\<open>waitpid\<close> call. But the blocking
  \<^verbatim>\<open>waitpid\<close> of the next foreground command is not a wait for that command's own
  process. After \<^verbatim>\<open>sleep 5 &\<close>, whether \<^verbatim>\<open>cd /tmp\<close> follows on the next line or in
  the same line, the shell runs \<^verbatim>\<open>chdir\<close> and then calls \<^verbatim>\<open>waitpid(0, _, 0)\<close>, a
  blocking wait for any child in the shell's own process group: the only child there is,
  and so the one that this call waits for and reaps, is the background \<^verbatim>\<open>sleep 5\<close>.
  After \<^verbatim>\<open>sleep 5 & echo hi\<close> the blocking call is \<^verbatim>\<open>waitpid(-1, _, 0)\<close>, a wait for any
  child, the background one included.
\<close>

theorem background_child_met_by_blocking_wait:
  "main [[(TOKEN_NORMAL, ''sleep''), (TOKEN_NORMAL, ''5''), (TOKEN_BACKGROUND, ''&'')],
         [(TOKEN_NORMAL, ''cd''), (TOKEN_NORMAL, ''/tmp'')]] (\<lambda>k. parent_env)
     = ([SetForeground 0, HandleSignal SIGTTOU SIG_IGN,
         Waitpid (- 1) WNOHANG, Waitpid (- 1) WNOHANG, Waitpid (- 1) WNOHANG,
         Fork [Str ''sleep'', Str ''5'', Null] 1000,
         Waitpid (- 1) WNOHANG,
         Waitpid (- 1) WNOHANG, Waitpid (- 1) WNOHANG,
         Chdir (Str ''/tmp'') 0, Waitpid 0 0,
         Waitpid (- 1) WNOHANG],
        Returns 0)
   \<and> eval_line [(TOKEN_NORMAL, ''sleep''), (TOKEN_NORMAL, ''5''), (TOKEN_BACKGROUND, ''&''),
                (TOKEN_NORMAL, ''cd''), (TOKEN_NORMAL, ''/tmp'')] parent_env
     = (replicate 5 (Waitpid (- 1) WNOHANG)
          @ [Fork [Str ''sleep'', Str ''5'', Null] 1000, Chdir (Str ''/tmp'') 0, Waitpid 0 0],
        Returns ())
   \<and> eval_line [(TOKEN_NORMAL, ''sleep''), (TOKEN_NORMAL, ''5''), (TOKEN_BACKGROUND, ''&''),
                (TOKEN_NORMAL, ''echo''), (TOKEN_NORMAL, ''hi'')] parent_env
     = (replicate 5 (Waitpid (- 1) WNOHANG)
          @ [Fork [Str ''sleep'', Str ''5'', Null] 1000,
             Fork [Str ''echo'', Str ''hi'', Null] 1001, Waitpid (- 1) 0],
        Returns ())"
  by code_simp

section \<open>A program that cannot be executed\<close>

text \<open>
  C6, as the spec states it, fails. The child whose program is missing ends with the
  status \<^verbatim>\<open>EXIT_FAILURE\<close>, which is 1. A program that was found, ran and failed with
  \<^verbatim>\<open>exit(EXIT_FAILURE)\<close>, as \<^verbatim>\<open>false\<close> does, ends with 1 as well: the two cases
  have the same status.
\<close>

theorem exec_failure_status_not_distinct:
  "child_exit_status (snd (snd (start_command (simple_command [''nosuchprogram'']) 42
        \<lparr>fork_ret = 0, chdir_ret = 0, exec_ok = False\<rparr>))) EXIT_FAILURE = Some 1
   \<and> child_exit_status (snd (snd (start_command (simple_command [''false'']) 42
        \<lparr>fork_ret = 0, chdir_ret = 0, exec_ok = True\<rparr>))) EXIT_FAILURE = Some 1"
  by code_simp

text \<open>
  C6, amended. For every command that is not a builtin, in the child (\<^verbatim>\<open>fork\<close> returned
  0) whose \<^verbatim>\<open>execvp\<close> fails, the process prints a diagnostic and ends at once with
  the status \<^verbatim>\<open>EXIT_FAILURE\<close>, which is not zero; it never goes on with the loop of
  \<^verbatim>\<open>run_list\<close>, whatever commands follow in the list. In the shell (\<^verbatim>\<open>fork\<close> did not
  return 0), \<^verbatim>\<open>start_command\<close> does the same whether or not the program can be
  executed.
\<close>

theorem exec_failure_ends_child:
  assumes "argc c \<noteq> 0"
    and "cell_at (argv c) 0 = Str a0" and "a0 \<noteq> BUILTIN_CD" and "a0 \<noteq> BUILTIN_EXIT"
    and "fork_ret (env 0) = 0" and "\<not> exec_ok (env 0)"
  shows "run_list (c # cs) env =
           ([Fork (argv c) 0, Execvp a0 (argv c), Perror ''Execvp failed: ''], Exits EXIT_FAILURE)
       \<and> EXIT_FAILURE \<noteq> 0
       \<and> (fork_ret r \<noteq> 0 \<longrightarrow>
             start_command c pgid (r\<lparr>exec_ok := b\<rparr>) = start_command c pgid r)"
  using assms
  by (auto simp: run_one_def start_command_def Let_def EXIT_FAILURE_def split: cell.splits)

theorem exec_failure_ends_child_witness:
  "run_list [simple_command [''nosuchprogram''], simple_command [''echo'', ''hi'']]
      (\<lambda>i. \<lparr>fork_ret = 0, chdir_ret = 0, exec_ok = False\<rparr>)
     = ([Fork [Str ''nosuchprogram'', Null] 0, Execvp ''nosuchprogram'' [Str ''nosuchprogram'', Null],
         Perror ''Execvp failed: ''], Exits 1)
   \<and> start_command (simple_command [''nosuchprogram'']) 42 ((parent_env 0)\<lparr>exec_ok := False\<rparr>)
     = start_command (simple_command [''nosuchprogram'']) 42 (parent_env 0)"
proof -
  have 1: "argc (simple_command [''nosuchprogram'']) \<noteq> 0" by (simp add: simple_command_def)
  have 2: "cell_at (argv (simple_command [''nosuchprogram''])) 0 = Str ''nosuchprogram''" by code_simp
  have 3: "''nosuchprogram'' \<noteq> BUILTIN_CD" "''nosuchprogram'' \<noteq> BUILTIN_EXIT"
    by (simp_all add: BUILTIN_CD_def BUILTIN_EXIT_def)
  have 4: "fork_ret ((\<lambda>i. \<lparr>fork_ret = 0, chdir_ret = 0, exec_ok = False\<rparr>) (0::nat)) = 0" by simp
  have 5: "\<not> exec_ok ((\<lambda>i. \<lparr>fork_ret = 0, chdir_ret = 0, exec_ok = False\<rparr>) (0::nat))" by simp
  have 6: "fork_ret (parent_env 0) \<noteq> 0" by (simp add: parent_env_def)
  show ?thesis
    using 6 exec_failure_ends_child [OF 1 2 3 4 5, of "[simple_command [''echo'', ''hi'']]"
        "parent_env 0" 42 False]
    by (simp add: simple_command_def argv_of_def EXIT_FAILURE_def)
qed

section \<open>Operators the builder does not act on\<close>

text \<open>
  \<^verbatim>\<open>eval_line\<close> acts on three token types only: a word is appended to the current
  command, \<^verbatim>\<open>;\<close> and \<^verbatim>\<open>&\<close> close it. A token of any other type is dropped, and the
  words on its two sides end up in one command.
\<close>

text \<open>
  C1 does not hold of the code. For \<^verbatim>\<open>echo hi && echo bye\<close> the claim asks that
  \<^verbatim>\<open>echo bye\<close> is started when \<^verbatim>\<open>echo hi\<close> has exited with 0, and for
  \<^verbatim>\<open>false || echo bye\<close> that \<^verbatim>\<open>echo bye\<close> is started when \<^verbatim>\<open>false\<close> has exited
  with a non-zero status. The shell calls \<^verbatim>\<open>fork\<close> once for each line, for the single
  command \<^verbatim>\<open>echo hi echo bye\<close>, respectively \<^verbatim>\<open>false echo bye\<close>: the command on
  the right of the operator is never started on its own.
\<close>

theorem and_or_tokens_join_commands:
  "eval_line [(TOKEN_NORMAL, ''echo''), (TOKEN_NORMAL, ''hi''), (TOKEN_AND, ''&&''),
              (TOKEN_NORMAL, ''echo''), (TOKEN_NORMAL, ''bye'')] parent_env
     = (replicate 5 (Waitpid (- 1) WNOHANG)
          @ [Fork [Str ''echo'', Str ''hi'', Str ''echo'', Str ''bye'', Null] 1000, Waitpid (- 1) 0],
        Returns ())
   \<and> eval_line [(TOKEN_NORMAL, ''false''), (TOKEN_OR, ''||''),
              (TOKEN_NORMAL, ''echo''), (TOKEN_NORMAL, ''bye'')] parent_env
     = (replicate 4 (Waitpid (- 1) WNOHANG)
          @ [Fork [Str ''false'', Str ''echo'', Str ''bye'', Null] 1000, Waitpid (- 1) 0],
        Returns ())"
  by code_simp

text \<open>
  C2 does not hold of the code. For the pipeline \<^verbatim>\<open>echo a | tr a b\<close> the claim asks
  that both stages are started. The shell calls \<^verbatim>\<open>fork\<close> once, for the single command
  \<^verbatim>\<open>echo a tr a b\<close>: the second stage is never started, and no pipe is made.
\<close>

theorem pipe_token_joins_stages:
  "eval_line [(TOKEN_NORMAL, ''echo''), (TOKEN_NORMAL, ''a''), (TOKEN_PIPE, ''|''),
              (TOKEN_NORMAL, ''tr''), (TOKEN_NORMAL, ''a''), (TOKEN_NORMAL, ''b'')] parent_env
     = (replicate 6 (Waitpid (- 1) WNOHANG)
          @ [Fork [Str ''echo'', Str ''a'', Str ''tr'', Str ''a'', Str ''b'', Null] 1000,
             Waitpid (- 1) 0],
        Returns ())"
  by code_simp

text \<open>
  C5 does not hold of the code. For \<^verbatim>\<open>echo hi > out.txt\<close> the claim asks that
  \<^verbatim>\<open>out.txt\<close> is taken as the target of the redirection and not as an argument, and
  that the redirection is applied in the child before the program runs. The builder drops
  the operator and appends \<^verbatim>\<open>out.txt\<close> as the third argument; the child goes from
  \<^verbatim>\<open>fork\<close> straight to \<^verbatim>\<open>execvp\<close> with that array.
\<close>

theorem redirection_target_becomes_argument:
  "build_commands [(TOKEN_NORMAL, ''echo''), (TOKEN_NORMAL, ''hi''), (TOKEN_REDIRECTION, ''>''),
                   (TOKEN_NORMAL, ''out.txt'')]
     = [simple_command [''echo'', ''hi'', ''out.txt'']]
   \<and> eval_line [(TOKEN_NORMAL, ''echo''), (TOKEN_NORMAL, ''hi''), (TOKEN_REDIRECTION, ''>''),
                   (TOKEN_NORMAL, ''out.txt'')] child_env
     = (replicate 4 (Waitpid (- 1) WNOHANG)
          @ [Fork [Str ''echo'', Str ''hi'', Str ''out.txt'', Null] 0,
             Execvp ''echo'' [Str ''echo'', Str ''hi'', Str ''out.txt'', Null]],
        Execs [Str ''echo'', Str ''hi'', Str ''out.txt'', Null])"
  by code_simp

section \<open>The foreground process group\<close>

text \<open>
  C4 does not hold of the code. For the line \<^verbatim>\<open>echo hi\<close>, a foreground command, the
  claim asks for a call of \<^verbatim>\<open>set_foreground\<close> with the group of the command before the
  blocking \<^verbatim>\<open>waitpid\<close>, and for one that gives the terminal back to the shell after
  it. The only call of \<^verbatim>\<open>set_foreground\<close> in the whole run of \<^verbatim>\<open>main\<close> is the one at
  startup.
\<close>

theorem foreground_group_never_transferred:
  "main [[(TOKEN_NORMAL, ''echo''), (TOKEN_NORMAL, ''hi'')]] (\<lambda>k. parent_env)
     = ([SetForeground 0, HandleSignal SIGTTOU SIG_IGN,
         Waitpid (- 1) WNOHANG, Waitpid (- 1) WNOHANG,
         Fork [Str ''echo'', Str ''hi'', Null] 1000, Waitpid (- 1) 0,
         Waitpid (- 1) WNOHANG],
        Returns 0)"
  by code_simp

end
